theory Spec2Isabelle
  imports Main "HOL-Library.Sublist" "HOL-Library.Multiset"
begin

section \<open>The task-list application (src/app.py)\<close>

text \<open>
  The application is three Flask view functions over one MySQL table, reached through
  the pymysql driver. The views are embedded as functions that take the state of the
  store and return it updated, together with either the exception that leaves the view
  (\<open>Inl\<close>) or the response it returns (\<open>Inr\<close>). The driver and the server behind it
  are not part of the repository: what they do on one request is a parameter of every
  view (a \<open>driver\<close> record), so a statement about a view holds for every behaviour of
  the store that the record can describe.
\<close>

subsection \<open>Exceptions and responses\<close>

text \<open>
  The exceptions that occur: the two kinds of error of the storage driver, under the
  names the specification gives them (\<open>ConnectionError\<close>: the target is unreachable or
  rejects the credentials; \<open>QueryError\<close>: a statement fails), each with the text
  \<open>str(e)\<close> gives, and the error of \<open>request.form[k]\<close> on a missing key \<open>k\<close>. All
  of them are subclasses of Python's \<open>Exception\<close>.
\<close>

datatype exn =
    ConnectionError string
  | QueryError string
  | BadRequestKeyError string

fun str_exn :: "exn \<Rightarrow> string" where
  "str_exn (ConnectionError m) = m"
| "str_exn (QueryError m) = m"
| "str_exn (BadRequestKeyError k) =
     ''400 Bad Request: The browser (or proxy) sent a request that this server could not understand.''"

text \<open>
  What a view returns, as the framework sends it: a string becomes a page with status
  200, a pair of a dictionary and a code becomes a JSON body with that code, and
  \<open>redirect\<close> gives status 302 with a \<open>Location\<close> header.
\<close>

datatype payload =
    Text string
  | Json "(string \<times> string) list"
  | Redirecting string

record response =
  status :: nat
  body :: payload
  location :: "string option"

definition str_response :: "string \<Rightarrow> response" where
  "str_response s = \<lparr>status = 200, body = Text s, location = None\<rparr>"

definition dict_response :: "(string \<times> string) list \<Rightarrow> nat \<Rightarrow> response" where
  "dict_response d code = \<lparr>status = code, body = Json d, location = None\<rparr>"

definition redirect :: "string \<Rightarrow> response" where
  "redirect target = \<lparr>status = 302, body = Redirecting target, location = Some target\<rparr>"

text \<open>The routes, as the \<open>@app.route\<close> decorators declare them.\<close>

datatype endpoint = Index | Add_task | Health

fun url_for :: "endpoint \<Rightarrow> string" where
  "url_for Index = ''/''"
| "url_for Add_task = ''/add''"
| "url_for Health = ''/health''"

subsection \<open>Configuration\<close>

record config =
  host :: string
  user :: string
  password :: string
  database :: string
  port :: int



subsection \<open>The store and the driver\<close>

text \<open>
  The store: the committed rows of table \<open>tasks\<close> (identifier, name), the next
  AUTO_INCREMENT value, and the connections that were opened and not closed, by handle.
  A connection leaves \<open>open_conns\<close> through a call of \<open>conn.close()\<close> only; what the
  Python runtime does later with a connection object that nothing refers to any more is
  not part of the model.
\<close>

type_synonym task_row = "nat \<times> string"

record store =
  tasks :: "task_row list"
  next_id :: nat
  open_conns :: "nat list"
  next_handle :: nat

text \<open>
  A connection has a handle and the rows it has inserted and not committed (pymysql
  connects with autocommit off, and the configuration does not turn it on).
\<close>

record connection =
  handle :: nat
  pending :: "task_row list"

text \<open>
  What the driver and the server do during one request: whether a connect with a given
  configuration, a statement with given arguments, a fetch or a commit fails (with the
  exception raised: which class the driver raises is the driver's matter), and the order
  in which an unordered scan of the table delivers its rows (ascending in \<open>scan_key\<close>,
  ties in the order of insertion). \<open>conn.cursor()\<close>, \<open>cursor.close()\<close> and
  \<open>conn.close()\<close> on a fresh connection do not raise in pymysql.
\<close>

record driver =
  connect_fault :: "config \<Rightarrow> exn option"
  execute_fault :: "string \<Rightarrow> string list \<Rightarrow> exn option"
  fetchall_fault :: "exn option"
  commit_fault :: "exn option"
  scan_key :: "task_row \<Rightarrow> nat"

definition pymysql_connect :: "driver \<Rightarrow> config \<Rightarrow> store \<Rightarrow> (exn + connection) \<times> store" where
  "pymysql_connect d cfg w =
     (case connect_fault d cfg of
        Some e \<Rightarrow> (Inl e, w)
      | None \<Rightarrow>
          (Inr \<lparr>handle = next_handle w, pending = []\<rparr>,
           w\<lparr>open_conns := next_handle w # open_conns w,
             next_handle := Suc (next_handle w)\<rparr>))"

definition select_sql :: string where
  "select_sql = ''SELECT * FROM tasks''"

definition insert_sql :: string where
  "insert_sql = ''INSERT INTO tasks (task_name) VALUES (%s)''"

text \<open>
  \<open>cursor.execute\<close> for the two statements the views send; the result is the buffered
  result set and the connection. The select sees the committed rows and the
  connection's own pending ones; the insert takes the next identifier and leaves the row
  pending. Any other statement or argument list is rejected.
\<close>

definition cursor_execute ::
  "driver \<Rightarrow> string \<Rightarrow> string list \<Rightarrow> connection \<Rightarrow> store
     \<Rightarrow> (exn + task_row list \<times> connection) \<times> store" where
  "cursor_execute d sql args c w =
     (case execute_fault d sql args of
        Some e \<Rightarrow> (Inl e, w)
      | None \<Rightarrow>
          if sql = select_sql \<and> args = [] then
            (Inr (sort_key (scan_key d) (tasks w @ pending c), c), w)
          else if sql = insert_sql \<and> length args = 1 then
            (Inr ([], c\<lparr>pending := pending c @ [(next_id w, hd args)]\<rparr>),
             w\<lparr>next_id := Suc (next_id w)\<rparr>)
          else (Inl (QueryError ''statement not supported''), w))"

definition cursor_fetchall :: "driver \<Rightarrow> task_row list \<Rightarrow> exn + task_row list" where
  "cursor_fetchall d rs = (case fetchall_fault d of Some e \<Rightarrow> Inl e | None \<Rightarrow> Inr rs)"

definition conn_commit :: "driver \<Rightarrow> connection \<Rightarrow> store \<Rightarrow> (exn + connection) \<times> store" where
  "conn_commit d c w =
     (case commit_fault d of
        Some e \<Rightarrow> (Inl e, w)
      | None \<Rightarrow> (Inr (c\<lparr>pending := []\<rparr>), w\<lparr>tasks := tasks w @ pending c\<rparr>))"

definition conn_close :: "connection \<Rightarrow> store \<Rightarrow> store" where
  "conn_close c w = w\<lparr>open_conns := remove1 (handle c) (open_conns w)\<rparr>"

subsection \<open>The views\<close>

definition get_db_connection :: "config \<Rightarrow> driver \<Rightarrow> store \<Rightarrow> (exn + connection) \<times> store" where
  "get_db_connection cfg d w = pymysql_connect d cfg w"

text \<open>
  Modelled from the spec: the template \<open>templates/index.html\<close> that \<open>index\<close> renders is
  not among the sources. The spec calls it a server-rendered HTML template iterating
  over the task list, whose output includes each task's name; here it is a list with one
  item per task, the name as stored.
\<close>

definition render_template_index :: "task_row list \<Rightarrow> string" where
  "render_template_index ts =
     ''<ul>'' @ concat (map (\<lambda>t. ''<li>'' @ snd t @ ''</li>'') ts) @ ''</ul>''"

text \<open>
  Lines 24 to 29 of \<open>index\<close>: connect, select, fetch, close. The result is the value of
  \<open>tasks\<close>. An exception leaves at the call that raised it, so the calls after it
  (the two closes among them) are not made. \<open>conn.cursor()\<close> and \<open>cursor.close()\<close>
  neither fail nor change the store, and have no step of their own.
\<close>

definition index_tasks :: "config \<Rightarrow> driver \<Rightarrow> store \<Rightarrow> (exn + task_row list) \<times> store" where
  "index_tasks cfg d w =
     (case get_db_connection cfg d w of \<comment> \<open>\<open>conn = get_db_connection()\<close>\<close>
        (Inl e, w1) \<Rightarrow> (Inl e, w1)
      | (Inr conn, w1) \<Rightarrow>
          (case cursor_execute d select_sql [] conn w1 of \<comment> \<open>the select of \<open>cursor.execute\<close>\<close>
             (Inl e, w2) \<Rightarrow> (Inl e, w2)
           | (Inr (rs, conn2), w2) \<Rightarrow>
               (case cursor_fetchall d rs of \<comment> \<open>\<open>tasks = cursor.fetchall()\<close>\<close>
                  Inl e \<Rightarrow> (Inl e, w2)
                | Inr ts \<Rightarrow> \<comment> \<open>\<open>conn.close()\<close>\<close>
                    (Inr ts, conn_close conn2 w2))))"

text \<open>
  \<open>index\<close>: the page on success (\<open>render_template\<close> is the last call of the
  \<open>try\<close> block); \<open>except Exception as e\<close> turns any exception into a string.
\<close>

definition index :: "config \<Rightarrow> driver \<Rightarrow> store \<Rightarrow> (exn + response) \<times> store" where
  "index cfg d w =
     (case index_tasks cfg d w of
        (Inr ts, w1) \<Rightarrow> (Inr (str_response (render_template_index ts)), w1)
      | (Inl e, w1) \<Rightarrow> (Inr (str_response (''Database Error: '' @ str_exn e)), w1))"

text \<open>\<open>add_task\<close>: the form is the request's form data; nothing is caught.\<close>

definition add_task ::
  "config \<Rightarrow> driver \<Rightarrow> (string \<rightharpoonup> string) \<Rightarrow> store \<Rightarrow> (exn + response) \<times> store" where
  "add_task cfg d form w =
     (case form ''task'' of \<comment> \<open>the \<open>task\<close> field of \<open>request.form\<close>\<close>
        None \<Rightarrow> (Inl (BadRequestKeyError ''task''), w)
      | Some task \<Rightarrow>
          (case get_db_connection cfg d w of \<comment> \<open>\<open>conn = get_db_connection()\<close>\<close>
             (Inl e, w1) \<Rightarrow> (Inl e, w1)
           | (Inr conn, w1) \<Rightarrow>
               (case cursor_execute d insert_sql [task] conn w1 of \<comment> \<open>the insert of \<open>cursor.execute\<close>\<close>
                  (Inl e, w2) \<Rightarrow> (Inl e, w2)
                | (Inr (rs, conn2), w2) \<Rightarrow>
                    (case conn_commit d conn2 w2 of \<comment> \<open>\<open>conn.commit()\<close>\<close>
                       (Inl e, w3) \<Rightarrow> (Inl e, w3)
                     | (Inr conn3, w3) \<Rightarrow> \<comment> \<open>\<open>conn.close()\<close>, then the redirect\<close>
                         (Inr (redirect (url_for Index)), conn_close conn3 w3)))))"

definition health :: "config \<Rightarrow> driver \<Rightarrow> store \<Rightarrow> (exn + response) \<times> store" where
  "health cfg d w = (Inr (dict_response [(''status'', ''healthy'')] 200), w)"

subsection \<open>Requests\<close>

text \<open>
  The three requests that reach a view, and a run of requests, each with the behaviour
  of the store while it is served. The response goes to the client; the store goes on
  to the next request.
\<close>

datatype request =
    GET_index
  | POST_add "string \<rightharpoonup> string"
  | GET_health

fun dispatch :: "config \<Rightarrow> driver \<Rightarrow> request \<Rightarrow> store \<Rightarrow> (exn + response) \<times> store" where
  "dispatch cfg d GET_index w = index cfg d w"
| "dispatch cfg d (POST_add form) w = add_task cfg d form w"
| "dispatch cfg d GET_health w = health cfg d w"

fun serve :: "config \<Rightarrow> (driver \<times> request) list \<Rightarrow> store \<Rightarrow> store" where
  "serve cfg [] w = w"
| "serve cfg ((d, r) # rs) w = serve cfg rs (snd (dispatch cfg d r w))"

text \<open>The store accepts the insert of a name: connect, insert and commit all succeed.\<close>

definition insert_ok :: "config \<Rightarrow> driver \<Rightarrow> string \<Rightarrow> bool" where
  "insert_ok cfg d name \<longleftrightarrow>
     connect_fault d cfg = None \<and> execute_fault d insert_sql [name] = None \<and> commit_fault d = None"

text \<open>The store answers the select: connect, select and fetch all succeed.\<close>

definition select_ok :: "config \<Rightarrow> driver \<Rightarrow> bool" where
  "select_ok cfg d \<longleftrightarrow>
     connect_fault d cfg = None \<and> execute_fault d select_sql [] = None \<and> fetchall_fault d = None"

text \<open>A form whose \<open>task\<close> field the store accepts.\<close>

definition add_ok :: "config \<Rightarrow> driver \<Rightarrow> (string \<rightharpoonup> string) \<Rightarrow> bool" where
  "add_ok cfg d form = (case form ''task'' of None \<Rightarrow> False | Some name \<Rightarrow> insert_ok cfg d name)"

text \<open>
  The identifiers in the table are pairwise different and below the next
  AUTO_INCREMENT value.
\<close>

definition ids_fresh :: "store \<Rightarrow> bool" where
  "ids_fresh w \<longleftrightarrow>
     distinct (map fst (tasks w)) \<and> list_all (\<lambda>r. fst r < next_id w) (tasks w)"


subsection \<open>Sample values\<close>

text \<open>
  The configuration of an empty environment, a store that works (scanning by
  identifier), a store that cannot be reached, and an empty table.
\<close>

definition default_config :: config where
  "default_config =
     \<lparr>host = ''mysql-service'', user = ''root'', password = ''password'',
      database = ''taskdb'', port = 3306\<rparr>"

definition up :: driver where
  "up = \<lparr>connect_fault = (\<lambda>cfg. None), execute_fault = (\<lambda>sql args. None),
          fetchall_fault = None, commit_fault = None, scan_key = fst\<rparr>"

definition down :: driver where
  "down = up\<lparr>connect_fault := (\<lambda>cfg. Some (ConnectionError ''(2003, Can't connect to MySQL server)''))\<rparr>"

definition empty_store :: store where
  "empty_store = \<lparr>tasks = [], next_id = 1, open_conns = [], next_handle = 0\<rparr>"

section \<open>What the views do, call by call\<close>

text \<open>
  Each view, unfolded over the outcomes of the driver: which call fails first decides
  the result and the state of the store.
\<close>

lemma index_tasks_cases:
  "index_tasks cfg d w =
     (case connect_fault d cfg of
        Some e \<Rightarrow> (Inl e, w)
      | None \<Rightarrow>
          (case execute_fault d select_sql [] of
             Some e \<Rightarrow>
               (Inl e, w\<lparr>open_conns := next_handle w # open_conns w,
                         next_handle := Suc (next_handle w)\<rparr>)
           | None \<Rightarrow>
               (case fetchall_fault d of
                  Some e \<Rightarrow>
                    (Inl e, w\<lparr>open_conns := next_handle w # open_conns w,
                              next_handle := Suc (next_handle w)\<rparr>)
                | None \<Rightarrow>
                    (Inr (sort_key (scan_key d) (tasks w)),
                     w\<lparr>next_handle := Suc (next_handle w)\<rparr>))))"
  by (simp add: index_tasks_def get_db_connection_def pymysql_connect_def cursor_execute_def
      cursor_fetchall_def conn_close_def split: option.splits)

lemma add_task_cases:
  "add_task cfg d form w =
     (case form ''task'' of
        None \<Rightarrow> (Inl (BadRequestKeyError ''task''), w)
      | Some s \<Rightarrow>
          (case connect_fault d cfg of
             Some e \<Rightarrow> (Inl e, w)
           | None \<Rightarrow>
               (case execute_fault d insert_sql [s] of
                  Some e \<Rightarrow>
                    (Inl e, w\<lparr>open_conns := next_handle w # open_conns w,
                              next_handle := Suc (next_handle w)\<rparr>)
                | None \<Rightarrow>
                    (case commit_fault d of
                       Some e \<Rightarrow>
                         (Inl e, w\<lparr>next_id := Suc (next_id w),
                                   open_conns := next_handle w # open_conns w,
                                   next_handle := Suc (next_handle w)\<rparr>)
                     | None \<Rightarrow>
                         (Inr (redirect ''/''),
                          w\<lparr>tasks := tasks w @ [(next_id w, s)],
                            next_id := Suc (next_id w),
                            next_handle := Suc (next_handle w)\<rparr>)))))"
  by (simp add: add_task_def get_db_connection_def pymysql_connect_def cursor_execute_def
      conn_commit_def conn_close_def insert_sql_def select_sql_def split: option.splits)

lemma index_tasks_ok:
  "select_ok cfg d \<Longrightarrow>
   index_tasks cfg d w =
     (Inr (sort_key (scan_key d) (tasks w)), w\<lparr>next_handle := Suc (next_handle w)\<rparr>)"
  by (simp add: index_tasks_cases select_ok_def)

lemma add_task_ok:
  "form ''task'' = Some s \<Longrightarrow> insert_ok cfg d s \<Longrightarrow>
   add_task cfg d form w =
     (Inr (redirect ''/''),
      w\<lparr>tasks := tasks w @ [(next_id w, s)], next_id := Suc (next_id w),
        next_handle := Suc (next_handle w)\<rparr>)"
  by (simp add: add_task_cases insert_ok_def)

subsection \<open>The table and the handles over a run of requests\<close>

lemma tasks_index: "tasks (snd (index cfg d w)) = tasks w"
  by (simp add: index_def index_tasks_cases split: option.splits)

lemma tasks_add_task: "prefix (tasks w) (tasks (snd (add_task cfg d form w)))"
  by (simp add: add_task_cases split: option.splits)

lemma tasks_dispatch: "prefix (tasks w) (tasks (snd (dispatch cfg d r w)))"
  by (cases r) (simp_all add: tasks_index tasks_add_task health_def)

lemma tasks_serve: "prefix (tasks w) (tasks (serve cfg reqs w))"
proof (induction reqs arbitrary: w)
  case Nil
  show ?case by simp
next
  case (Cons a reqs)
  obtain d r where a: "a = (d, r)" by (cases a)
  have "prefix (tasks w) (tasks (snd (dispatch cfg d r w)))"
    by (rule tasks_dispatch)
  also have "prefix \<dots> (tasks (serve cfg reqs (snd (dispatch cfg d r w))))"
    by (rule Cons.IH)
  finally show ?case by (simp add: a)
qed



lemma ids_fresh_index: "ids_fresh w \<Longrightarrow> ids_fresh (snd (index cfg d w))"
  by (simp add: ids_fresh_def index_def index_tasks_cases split: option.splits)

lemma ids_fresh_add_task:
  assumes "ids_fresh w"
  shows "ids_fresh (snd (add_task cfg d form w))"
proof -
  from assms have d: "distinct (map fst (tasks w))"
    and b: "\<forall>r\<in>set (tasks w). fst r < next_id w"
    by (simp_all add: ids_fresh_def list_all_iff)
  from b have s: "\<forall>r\<in>set (tasks w). fst r < Suc (next_id w)"
    by (simp add: less_Suc_eq)
  from b have n: "next_id w \<notin> fst ` set (tasks w)"
    by auto
  show ?thesis
    using d b s n
    by (simp add: ids_fresh_def list_all_iff add_task_cases split: option.splits)
qed

lemma ids_fresh_dispatch: "ids_fresh w \<Longrightarrow> ids_fresh (snd (dispatch cfg d r w))"
  by (cases r) (simp_all add: ids_fresh_index ids_fresh_add_task health_def)

lemma ids_fresh_serve: "ids_fresh w \<Longrightarrow> ids_fresh (serve cfg reqs w)"
proof (induction reqs arbitrary: w)
  case Nil
  then show ?case by simp
next
  case (Cons a reqs)
  obtain d r where a: "a = (d, r)" by (cases a)
  from Cons.prems have "ids_fresh (snd (dispatch cfg d r w))"
    by (rule ids_fresh_dispatch)
  then have "ids_fresh (serve cfg reqs (snd (dispatch cfg d r w)))"
    by (rule Cons.IH)
  then show ?case by (simp add: a)
qed



subsection \<open>The configuration, variable by variable\<close>









subsection \<open>The page\<close>

lemma sublist_render:
  assumes "t \<in> set ts"
  shows "sublist (snd t) (render_template_index ts)"
proof -
  from assms obtain us vs where ts: "ts = us @ t # vs"
    by (auto simp: in_set_conv_decomp)
  let ?item = "\<lambda>t :: task_row. ''<li>'' @ snd t @ ''</li>''"
  have "render_template_index ts =
      (''<ul>'' @ concat (map ?item us) @ ''<li>'') @ snd t
        @ (''</li>'' @ concat (map ?item vs) @ ''</ul>'')"
    by (simp add: render_template_index_def ts)
  then show ?thesis
    by (metis sublist_appendI)
qed

lemma serve_adds:
  "list_all (\<lambda>(d, f). add_ok cfg d f) dfs \<Longrightarrow>
   length (tasks (serve cfg (map (\<lambda>(d, f). (d, POST_add f)) dfs) w))
     = length (tasks w) + length dfs"
proof (induction dfs arbitrary: w)
  case Nil
  show ?case by simp
next
  case (Cons a dfs)
  obtain d f where a: "a = (d, f)" by (cases a)
  from Cons.prems a obtain s where s: "f ''task'' = Some s" "insert_ok cfg d s"
    by (auto simp: add_ok_def split: option.splits)
  from Cons.prems have rest: "list_all (\<lambda>(d, f). add_ok cfg d f) dfs" by simp
  show ?case
    using s by (simp add: a add_task_ok Cons.IH [OF rest])
qed

section \<open>The properties of the specification\<close>


text \<open>
  C1. A task added is a task shown: when the store accepts the insert of the name \<open>s\<close>
  sent in the form field \<open>task\<close> and then answers the select, \<open>index\<close> after
  \<open>add_task\<close> answers with status 200 and a body that is the page rendered from the
  list read, the new row with the name \<open>s\<close> is in that list, and the text of the body
  contains \<open>s\<close>. And after a run of N accepted \<open>POST /add\<close> requests, from any store,
  the list that \<open>index\<close> reads is N longer than the table was before the run.
\<close>

theorem add_then_index_roundtrip:
  "(form ''task'' = Some s \<and> insert_ok cfg d1 s \<and> select_ok cfg d2 \<longrightarrow>
      (\<exists>r ts page. fst (index cfg d2 (snd (add_task cfg d1 form w))) = Inr r
         \<and> status r = 200 \<and> body r = Text page
         \<and> fst (index_tasks cfg d2 (snd (add_task cfg d1 form w))) = Inr ts
         \<and> (next_id w, s) \<in> set ts
         \<and> page = render_template_index ts
         \<and> sublist s page))
   \<and> (list_all (\<lambda>(d, f). add_ok cfg d f) dfs \<and> select_ok cfg d2 \<longrightarrow>
      (\<exists>ts. fst (index_tasks cfg d2 (serve cfg (map (\<lambda>(d, f). (d, POST_add f)) dfs) w)) = Inr ts
         \<and> length ts = length (tasks w) + length dfs))"
proof (intro conjI impI)
  assume h: "form ''task'' = Some s \<and> insert_ok cfg d1 s \<and> select_ok cfg d2"
  let ?w1 = "snd (add_task cfg d1 form w)"
  let ?ts = "sort_key (scan_key d2) (tasks ?w1)"
  let ?r = "str_response (render_template_index ?ts)"
  from h have w1: "tasks ?w1 = tasks w @ [(next_id w, s)]"
    by (simp add: add_task_ok)
  from h have rd: "fst (index_tasks cfg d2 ?w1) = Inr ?ts"
    by (simp add: index_tasks_ok)
  from h have ix: "fst (index cfg d2 ?w1) = Inr ?r"
    by (simp add: index_def index_tasks_ok)
  have st: "status ?r = 200" and bd: "body ?r = Text (render_template_index ?ts)"
    by (simp_all add: str_response_def)
  have mem: "(next_id w, s) \<in> set ?ts"
    by (simp add: w1)
  then have "sublist (snd (next_id w, s)) (render_template_index ?ts)"
    by (rule sublist_render)
  then have sub: "sublist s (render_template_index ?ts)"
    by simp
  from ix st bd rd mem sub
  show "\<exists>r ts page. fst (index cfg d2 ?w1) = Inr r
         \<and> status r = 200 \<and> body r = Text page
         \<and> fst (index_tasks cfg d2 ?w1) = Inr ts
         \<and> (next_id w, s) \<in> set ts
         \<and> page = render_template_index ts
         \<and> sublist s page"
    by blast
next
  assume h: "list_all (\<lambda>(d, f). add_ok cfg d f) dfs \<and> select_ok cfg d2"
  let ?w1 = "serve cfg (map (\<lambda>(d, f). (d, POST_add f)) dfs) w"
  from h have "fst (index_tasks cfg d2 ?w1) = Inr (sort_key (scan_key d2) (tasks ?w1))"
    by (simp add: index_tasks_ok)
  moreover from h
  have "length (sort_key (scan_key d2) (tasks ?w1)) = length (tasks w) + length dfs"
    by (simp add: serve_adds)
  ultimately
  show "\<exists>ts. fst (index_tasks cfg d2 ?w1) = Inr ts \<and> length ts = length (tasks w) + length dfs"
    by blast
qed

theorem add_then_index_roundtrip_witness:
  "[''task'' \<mapsto> ''buy milk''] ''task'' = Some ''buy milk''
   \<and> insert_ok default_config up ''buy milk'' \<and> select_ok default_config up
   \<and> list_all (\<lambda>(d, f). add_ok default_config d f)
        [(up, [''task'' \<mapsto> ''buy milk'']), (up, [''task'' \<mapsto> ''''])]
   \<and> fst (index default_config up
            (snd (add_task default_config up [''task'' \<mapsto> ''buy milk''] empty_store)))
       = Inr \<lparr>status = 200, body = Text ''<ul><li>buy milk</li></ul>'', location = None\<rparr>
   \<and> sublist ''buy milk'' ''<ul><li>buy milk</li></ul>''
   \<and> (\<exists>r ts page.
          fst (index default_config up
                (snd (add_task default_config up [''task'' \<mapsto> ''buy milk''] empty_store)))
            = Inr r
          \<and> status r = 200 \<and> body r = Text page
          \<and> fst (index_tasks default_config up
                (snd (add_task default_config up [''task'' \<mapsto> ''buy milk''] empty_store)))
            = Inr ts
          \<and> (next_id empty_store, ''buy milk'') \<in> set ts
          \<and> page = render_template_index ts
          \<and> sublist ''buy milk'' page)
   \<and> (\<exists>ts. fst (index_tasks default_config up
                (serve default_config
                  (map (\<lambda>(d, f). (d, POST_add f))
                     [(up, [''task'' \<mapsto> ''buy milk'']), (up, [''task'' \<mapsto> ''''])])
                  empty_store)) = Inr ts
         \<and> length ts = length (tasks empty_store)
             + length [(up, [''task'' \<mapsto> ''buy milk'']), (up, [''task'' \<mapsto> ''''])])"
proof -
  have h1: "[''task'' \<mapsto> ''buy milk''] ''task'' = Some ''buy milk''
     \<and> insert_ok default_config up ''buy milk'' \<and> select_ok default_config up"
    by (simp add: insert_ok_def select_ok_def up_def)
  have h2: "list_all (\<lambda>(d, f). add_ok default_config d f)
        [(up, [''task'' \<mapsto> ''buy milk'']), (up, [''task'' \<mapsto> ''''])]"
    by (simp add: add_ok_def insert_ok_def up_def)
  have pg: "fst (index default_config up
            (snd (add_task default_config up [''task'' \<mapsto> ''buy milk''] empty_store)))
       = Inr \<lparr>status = 200, body = Text ''<ul><li>buy milk</li></ul>'', location = None\<rparr>"
    by (simp add: index_def index_tasks_cases add_task_cases up_def empty_store_def
        str_response_def render_template_index_def)
  have sb: "sublist ''buy milk'' ''<ul><li>buy milk</li></ul>''"
    by code_simp
  show ?thesis
    using h1 h2 pg sb
      add_then_index_roundtrip [of "[''task'' \<mapsto> ''buy milk'']" "''buy milk''"
        default_config up up empty_store
        "[(up, [''task'' \<mapsto> ''buy milk'']), (up, [''task'' \<mapsto> ''''])]"]
    by blast
qed

text \<open>
  C2. \<open>health\<close> returns status 200 with the body \<open>{"status": "healthy"}\<close> and leaves the
  store as it is, whatever the configuration, the behaviour of the driver and the state
  of the store: its response is the same for any two of them.
\<close>

theorem health_unconditional:
  "health cfg d w
     = (Inr \<lparr>status = 200, body = Json [(''status'', ''healthy'')], location = None\<rparr>, w)
   \<and> fst (health cfg d w) = fst (health cfg' d' w')
   \<and> dispatch cfg d GET_health w = health cfg d w"
  by (simp add: health_def dict_response_def)

text \<open>
  C3. \<open>index\<close> never lets an exception out: it always returns a response. When the
  connect, the select or the fetch fails with an exception \<open>e\<close> of the driver, the
  response has status 200 and its body is the text \<open>Database Error: \<close> followed by
  \<open>str(e)\<close>; that text contains \<open>Database Error\<close>.
\<close>

theorem index_catches_every_failure:
  "(\<exists>r. fst (index cfg d w) = Inr r)
   \<and> (\<not> select_ok cfg d \<longrightarrow>
        (\<exists>e r txt. fst (index_tasks cfg d w) = Inl e
           \<and> Some e \<in> {connect_fault d cfg, execute_fault d select_sql [], fetchall_fault d}
           \<and> fst (index cfg d w) = Inr r
           \<and> status r = 200 \<and> body r = Text txt
           \<and> txt = ''Database Error: '' @ str_exn e
           \<and> sublist ''Database Error'' txt))"
proof (intro conjI impI)
  show "\<exists>r. fst (index cfg d w) = Inr r"
    by (simp add: index_def split: prod.splits sum.splits)
next
  assume "\<not> select_ok cfg d"
  then have "\<exists>e. fst (index_tasks cfg d w) = Inl e
      \<and> Some e \<in> {connect_fault d cfg, execute_fault d select_sql [], fetchall_fault d}"
    by (cases "connect_fault d cfg"; cases "execute_fault d select_sql []";
        cases "fetchall_fault d")
      (simp_all add: select_ok_def index_tasks_cases)
  then obtain e where e: "fst (index_tasks cfg d w) = Inl e"
    and src: "Some e \<in> {connect_fault d cfg, execute_fault d select_sql [], fetchall_fault d}"
    by blast
  let ?txt = "''Database Error: '' @ str_exn e"
  from e have ix: "fst (index cfg d w) = Inr (str_response ?txt)"
    by (cases "index_tasks cfg d w") (simp add: index_def)
  have st: "status (str_response ?txt) = 200" and bd: "body (str_response ?txt) = Text ?txt"
    by (simp_all add: str_response_def)
  have sub: "sublist ''Database Error'' ?txt"
    by (rule prefix_imp_sublist) simp
  from e src ix st bd sub
  show "\<exists>e r txt. fst (index_tasks cfg d w) = Inl e
           \<and> Some e \<in> {connect_fault d cfg, execute_fault d select_sql [], fetchall_fault d}
           \<and> fst (index cfg d w) = Inr r
           \<and> status r = 200 \<and> body r = Text txt
           \<and> txt = ''Database Error: '' @ str_exn e
           \<and> sublist ''Database Error'' txt"
    by blast
qed

theorem index_catches_every_failure_witness:
  "\<not> select_ok default_config down
   \<and> fst (index default_config down empty_store)
       = Inr \<lparr>status = 200,
              body = Text ''Database Error: (2003, Can't connect to MySQL server)'',
              location = None\<rparr>
   \<and> (\<exists>e r txt. fst (index_tasks default_config down empty_store) = Inl e
           \<and> Some e \<in> {connect_fault down default_config, execute_fault down select_sql [],
                         fetchall_fault down}
           \<and> fst (index default_config down empty_store) = Inr r
           \<and> status r = 200 \<and> body r = Text txt
           \<and> txt = ''Database Error: '' @ str_exn e
           \<and> sublist ''Database Error'' txt)"
proof -
  have h: "\<not> select_ok default_config down"
    by (simp add: select_ok_def down_def up_def)
  have r: "fst (index default_config down empty_store)
       = Inr \<lparr>status = 200,
              body = Text ''Database Error: (2003, Can't connect to MySQL server)'',
              location = None\<rparr>"
    by (simp add: index_def index_tasks_cases down_def up_def str_response_def)
  from index_catches_every_failure [of default_config down empty_store] h r
  show ?thesis
    by blast
qed

text \<open>
  C4. \<open>add_task\<close> catches nothing. With a \<open>task\<close> field in the form, when the connect,
  the insert or the commit fails, the exception the driver raised leaves the view
  unchanged, and no row is added to the table. When the connect had succeeded, the
  handle it opened is still among the open connections afterwards: \<open>conn.close()\<close> was
  not reached.
\<close>

theorem add_task_propagates_and_leaks:
  "form ''task'' = Some s \<and> \<not> insert_ok cfg d s \<longrightarrow>
     (\<exists>e w'. add_task cfg d form w = (Inl e, w')
        \<and> Some e \<in> {connect_fault d cfg,
                      execute_fault d insert_sql [s], commit_fault d}
        \<and> tasks w' = tasks w
        \<and> (connect_fault d cfg = None \<longrightarrow>
             open_conns w' = next_handle w # open_conns w))"
proof
  assume h: "form ''task'' = Some s \<and> \<not> insert_ok cfg d s"
  show "\<exists>e w'. add_task cfg d form w = (Inl e, w')
        \<and> Some e \<in> {connect_fault d cfg,
                      execute_fault d insert_sql [s], commit_fault d}
        \<and> tasks w' = tasks w
        \<and> (connect_fault d cfg = None \<longrightarrow>
             open_conns w' = next_handle w # open_conns w)"
  proof (cases "connect_fault d cfg")
    case (Some m)
    with h show ?thesis by (simp add: add_task_cases)
  next
    case None
    note c = this
    show ?thesis
    proof (cases "execute_fault d insert_sql [s]")
      case (Some e)
      with h c show ?thesis by (simp add: add_task_cases)
    next
      case None
      with h c obtain e where "commit_fault d = Some e"
        by (auto simp: insert_ok_def)
      with h c None show ?thesis by (simp add: add_task_cases)
    qed
  qed
qed

theorem add_task_propagates_and_leaks_witness:
  "[''task'' \<mapsto> ''buy milk''] ''task'' = Some ''buy milk''
   \<and> \<not> insert_ok default_config (up\<lparr>commit_fault := Some (QueryError ''(2013, Lost connection)'')\<rparr>) ''buy milk''
   \<and> connect_fault (up\<lparr>commit_fault := Some (QueryError ''(2013, Lost connection)'')\<rparr>) default_config = None
   \<and> (\<exists>w'. add_task default_config (up\<lparr>commit_fault := Some (QueryError ''(2013, Lost connection)'')\<rparr>)
              [''task'' \<mapsto> ''buy milk''] empty_store
            = (Inl (QueryError ''(2013, Lost connection)''), w')
          \<and> tasks w' = [] \<and> open_conns w' = [0])"
proof -
  let ?d = "up\<lparr>commit_fault := Some (QueryError ''(2013, Lost connection)'')\<rparr>"
  have h: "[''task'' \<mapsto> ''buy milk''] ''task'' = Some ''buy milk''
      \<and> \<not> insert_ok default_config ?d ''buy milk''"
    by (simp add: insert_ok_def up_def)
  have c: "connect_fault ?d default_config = None"
    by (simp add: up_def)
  have e: "fst (add_task default_config ?d [''task'' \<mapsto> ''buy milk''] empty_store)
      = Inl (QueryError ''(2013, Lost connection)'')"
    by (simp add: add_task_cases up_def)
  from add_task_propagates_and_leaks [of "[''task'' \<mapsto> ''buy milk'']" "''buy milk''"
      default_config ?d empty_store] h c e
  show ?thesis
    by (auto simp: empty_store_def)
qed

text \<open>
  C5. A \<open>POST /add\<close> whose form has no \<open>task\<close> field fails with the missing-key error
  of \<open>request.form\<close> for the key \<open>task\<close>; the store is exactly as before, so no
  connection was opened and no row inserted.
\<close>

theorem add_task_missing_field:
  "form ''task'' = None \<Longrightarrow> add_task cfg d form w = (Inl (BadRequestKeyError ''task''), w)"
  by (simp add: add_task_def)

theorem add_task_missing_field_witness:
  "[''title'' \<mapsto> ''buy milk''] ''task'' = None
   \<and> add_task default_config up [''title'' \<mapsto> ''buy milk''] empty_store
       = (Inl (BadRequestKeyError ''task''), empty_store)"
proof -
  have h: "[''title'' \<mapsto> ''buy milk''] ''task'' = None" by simp
  from h add_task_missing_field [of "[''title'' \<mapsto> ''buy milk'']" default_config up empty_store]
  show ?thesis by blast
qed

text \<open>
  C6. The select that \<open>index\<close> sends has no ordering clause, and when it succeeds the
  list read is the table's rows, each one once, in the order the store's scan delivers
  them; from an empty table the list is empty.
\<close>

theorem index_lists_all_rows:
  "select_ok cfg d \<Longrightarrow>
     (\<exists>ts. fst (index_tasks cfg d w) = Inr ts
        \<and> mset ts = mset (tasks w)
        \<and> sorted (map (scan_key d) ts))
     \<and> fst (index_tasks cfg d (w\<lparr>tasks := []\<rparr>)) = Inr []
     \<and> \<not> sublist ''ORDER BY'' select_sql"
proof -
  assume h: "select_ok cfg d"
  have "\<not> sublist ''ORDER BY'' select_sql"
    unfolding select_sql_def by code_simp
  with h show ?thesis
    by (simp add: index_tasks_ok)
qed

theorem index_lists_all_rows_witness:
  "select_ok default_config (up\<lparr>scan_key := (\<lambda>t. 10 - fst t)\<rparr>)
   \<and> fst (index_tasks default_config (up\<lparr>scan_key := (\<lambda>t. 10 - fst t)\<rparr>)
         (empty_store\<lparr>tasks := [(1, ''buy milk''), (2, ''walk dog'')], next_id := 3\<rparr>))
       = Inr [(2, ''walk dog''), (1, ''buy milk'')]
   \<and> fst (index_tasks default_config (up\<lparr>scan_key := (\<lambda>t. 10 - fst t)\<rparr>)
         (empty_store\<lparr>tasks := [(1, ''buy milk''), (2, ''walk dog'')], next_id := 3\<rparr>
            \<lparr>tasks := []\<rparr>))
       = Inr []"
proof -
  let ?d = "up\<lparr>scan_key := (\<lambda>t. 10 - fst t)\<rparr>"
  let ?w = "empty_store\<lparr>tasks := [(1, ''buy milk''), (2, ''walk dog'')], next_id := 3\<rparr>"
  have h: "select_ok default_config ?d"
    by (simp add: select_ok_def up_def)
  have e: "fst (index_tasks default_config ?d ?w) = Inr [(2, ''walk dog''), (1, ''buy milk'')]"
    by (simp add: index_tasks_cases up_def empty_store_def)
  from index_lists_all_rows [OF h, of ?w] h e
  show ?thesis
    by simp
qed

text \<open>
  C7. With a \<open>task\<close> field \<open>s\<close> in the form, when connect, insert and commit succeed,
  \<open>add_task\<close> returns a redirect with status 302 to \<open>/\<close>, the table is the old table
  followed by one new row that carries \<open>s\<close> as it was sent (whatever \<open>s\<close> is, the empty
  string included), and the connection is closed again.
\<close>

theorem add_task_redirects_and_appends:
  "form ''task'' = Some s \<and> insert_ok cfg d s \<longrightarrow>
     (\<exists>r w'. add_task cfg d form w = (Inr r, w')
        \<and> status r = 302 \<and> location r = Some ''/''
        \<and> tasks w' = tasks w @ [(next_id w, s)]
        \<and> open_conns w' = open_conns w)"
  by (simp add: add_task_ok redirect_def)

theorem add_task_redirects_and_appends_witness:
  "[''task'' \<mapsto> ''''] ''task'' = Some (''''::string) \<and> insert_ok default_config up ''''
   \<and> (\<exists>r w'. add_task default_config up [''task'' \<mapsto> ''''] empty_store = (Inr r, w')
        \<and> status r = 302 \<and> location r = Some ''/''
        \<and> tasks w' = tasks empty_store @ [(next_id empty_store, '''')]
        \<and> open_conns w' = open_conns empty_store)"
proof -
  have h: "[''task'' \<mapsto> ''''] ''task'' = Some (''''::string) \<and> insert_ok default_config up ''''"
    by (simp add: insert_ok_def up_def)
  from add_task_redirects_and_appends [of "[''task'' \<mapsto> '''']" "''''" default_config up empty_store] h
  show ?thesis
    by blast
qed



text \<open>
  C9. No view updates or deletes a row. \<open>index\<close> and \<open>health\<close> leave the table as it
  is, \<open>add_task\<close> leaves it as it is or adds one row at its end, and so after any run of
  requests the table starts with the rows it had before: every row that was there, with
  its identifier and its name, is still there. Identifiers that were pairwise different
  and below the next AUTO_INCREMENT value remain so, so no later row takes the
  identifier of an earlier one.
\<close>

theorem tasks_never_updated_or_deleted:
  "tasks (snd (index cfg d w)) = tasks w
   \<and> (\<exists>new. tasks (snd (add_task cfg d form w)) = tasks w @ new \<and> length new \<le> 1)
   \<and> tasks (snd (health cfg d w)) = tasks w
   \<and> prefix (tasks w) (tasks (serve cfg reqs w))
   \<and> ((i, name) \<in> set (tasks w) \<longrightarrow> (i, name) \<in> set (tasks (serve cfg reqs w)))
   \<and> (ids_fresh w \<longrightarrow> ids_fresh (serve cfg reqs w))"
proof (intro conjI impI)
  show "tasks (snd (index cfg d w)) = tasks w"
    by (rule tasks_index)
  show "\<exists>new. tasks (snd (add_task cfg d form w)) = tasks w @ new \<and> length new \<le> 1"
    by (simp add: add_task_cases split: option.splits)
  show "tasks (snd (health cfg d w)) = tasks w"
    by (simp add: health_def)
  show "prefix (tasks w) (tasks (serve cfg reqs w))"
    by (rule tasks_serve)
next
  assume "(i, name) \<in> set (tasks w)"
  moreover have "set (tasks w) \<subseteq> set (tasks (serve cfg reqs w))"
    by (rule set_mono_prefix) (rule tasks_serve)
  ultimately show "(i, name) \<in> set (tasks (serve cfg reqs w))"
    by blast
next
  assume "ids_fresh w"
  then show "ids_fresh (serve cfg reqs w)"
    by (rule ids_fresh_serve)
qed

theorem tasks_never_updated_or_deleted_witness:
  "(1, ''buy milk'') \<in> set (tasks (empty_store\<lparr>tasks := [(1, ''buy milk'')], next_id := 2\<rparr>))
   \<and> ids_fresh (empty_store\<lparr>tasks := [(1, ''buy milk'')], next_id := 2\<rparr>)
   \<and> (1, ''buy milk'') \<in> set (tasks (serve default_config
        [(up, POST_add [''task'' \<mapsto> ''walk dog'']), (down, GET_index),
         (up\<lparr>commit_fault := Some (QueryError ''(2013, Lost connection)'')\<rparr>,
            POST_add [''task'' \<mapsto> ''buy milk'']),
         (up, GET_health)]
        (empty_store\<lparr>tasks := [(1, ''buy milk'')], next_id := 2\<rparr>)))
   \<and> tasks (serve default_config
        [(up, POST_add [''task'' \<mapsto> ''walk dog'']), (down, GET_index),
         (up\<lparr>commit_fault := Some (QueryError ''(2013, Lost connection)'')\<rparr>,
            POST_add [''task'' \<mapsto> ''buy milk'']),
         (up, GET_health)]
        (empty_store\<lparr>tasks := [(1, ''buy milk'')], next_id := 2\<rparr>))
      = [(1, ''buy milk''), (2, ''walk dog'')]
   \<and> ids_fresh (serve default_config
        [(up, POST_add [''task'' \<mapsto> ''walk dog'']), (down, GET_index),
         (up\<lparr>commit_fault := Some (QueryError ''(2013, Lost connection)'')\<rparr>,
            POST_add [''task'' \<mapsto> ''buy milk'']),
         (up, GET_health)]
        (empty_store\<lparr>tasks := [(1, ''buy milk'')], next_id := 2\<rparr>))"
proof -
  let ?w = "empty_store\<lparr>tasks := [(1, ''buy milk'')], next_id := 2\<rparr>"
  let ?reqs = "[(up, POST_add [''task'' \<mapsto> ''walk dog'']), (down, GET_index),
         (up\<lparr>commit_fault := Some (QueryError ''(2013, Lost connection)'')\<rparr>,
            POST_add [''task'' \<mapsto> ''buy milk'']),
         (up, GET_health)]"
  have h: "(1, ''buy milk'') \<in> set (tasks ?w)"
    by simp
  have f: "ids_fresh ?w"
    by (simp add: ids_fresh_def)
  have e: "tasks (serve default_config ?reqs ?w) = [(1, ''buy milk''), (2, ''walk dog'')]"
    by (simp add: index_def index_tasks_cases add_task_cases health_def up_def down_def
        empty_store_def)
  from h f e tasks_never_updated_or_deleted [of default_config up ?w Map.empty ?reqs 1 "''buy milk''"]
  show ?thesis
    by blast
qed

text \<open>
  C10. \<open>index\<close> closes its connection on the success path only. Once the connect has
  succeeded: when select and fetch succeed, the open connections afterwards are those
  from before; when one of them fails, the view returns the error string and the handle
  just opened is still among the open connections.
\<close>

theorem index_leaks_connection_on_error:
  "connect_fault d cfg = None \<longrightarrow>
     (if select_ok cfg d
      then open_conns (snd (index cfg d w)) = open_conns w
      else open_conns (snd (index cfg d w)) = next_handle w # open_conns w
        \<and> (\<exists>e. Some e \<in> {execute_fault d select_sql [], fetchall_fault d}
              \<and> fst (index cfg d w) = Inr (str_response (''Database Error: '' @ str_exn e))))"
proof
  assume c: "connect_fault d cfg = None"
  show "if select_ok cfg d
      then open_conns (snd (index cfg d w)) = open_conns w
      else open_conns (snd (index cfg d w)) = next_handle w # open_conns w
        \<and> (\<exists>e. Some e \<in> {execute_fault d select_sql [], fetchall_fault d}
              \<and> fst (index cfg d w) = Inr (str_response (''Database Error: '' @ str_exn e)))"
  proof (cases "execute_fault d select_sql []")
    case (Some e)
    with c show ?thesis
      by (auto simp: select_ok_def index_def index_tasks_cases)
  next
    case None
    with c show ?thesis
      by (cases "fetchall_fault d") (auto simp: select_ok_def index_def index_tasks_cases)
  qed
qed

theorem index_leaks_connection_on_error_witness:
  "connect_fault (up\<lparr>execute_fault := (\<lambda>sql args. Some (QueryError ''(1146, Table taskdb.tasks doesn't exist)''))\<rparr>)
       default_config = None
   \<and> \<not> select_ok default_config
         (up\<lparr>execute_fault := (\<lambda>sql args. Some (QueryError ''(1146, Table taskdb.tasks doesn't exist)''))\<rparr>)
   \<and> index default_config
         (up\<lparr>execute_fault := (\<lambda>sql args. Some (QueryError ''(1146, Table taskdb.tasks doesn't exist)''))\<rparr>)
         empty_store
       = (Inr (str_response ''Database Error: (1146, Table taskdb.tasks doesn't exist)''),
          empty_store\<lparr>open_conns := [0], next_handle := 1\<rparr>)
   \<and> open_conns (snd (index default_config
         (up\<lparr>execute_fault := (\<lambda>sql args. Some (QueryError ''(1146, Table taskdb.tasks doesn't exist)''))\<rparr>)
         empty_store))
       = next_handle empty_store # open_conns empty_store
   \<and> select_ok default_config up
   \<and> open_conns (snd (index default_config up empty_store)) = open_conns empty_store"
proof -
  let ?d = "up\<lparr>execute_fault := (\<lambda>sql args. Some (QueryError ''(1146, Table taskdb.tasks doesn't exist)''))\<rparr>"
  have c: "connect_fault ?d default_config = None" "connect_fault up default_config = None"
    by (simp_all add: up_def)
  have n: "\<not> select_ok default_config ?d" "select_ok default_config up"
    by (simp_all add: select_ok_def up_def)
  have e: "index default_config ?d empty_store
       = (Inr (str_response ''Database Error: (1146, Table taskdb.tasks doesn't exist)''),
          empty_store\<lparr>open_conns := [0], next_handle := 1\<rparr>)"
    by (simp add: index_def index_tasks_cases up_def empty_store_def)
  from c n e index_leaks_connection_on_error [of ?d default_config empty_store]
    index_leaks_connection_on_error [of up default_config empty_store]
  show ?thesis
    by simp
qed

end
